theory Spec2Isabelle
  imports
    Complex_Main
    "HOL-Library.Char_ord"
    "HOL-Library.List_Lexorder"
    "HOL-Library.Product_Lexorder"
    "HOL-Library.Multiset"
    "HOL-Library.Sublist"
begin

section \<open>Text primitives of the Python runtime\<close>

text \<open>
  A Python \<open>str\<close> is modelled as an Isabelle \<open>string\<close>: one \<open>char\<close> per code point, for
  the code points below 256.  On that range \<open>str.isspace\<close> holds for exactly the code
  points 9-13, 28-32, 133 and 160, and the only decimal digits are \<open>0\<close>-\<open>9\<close>.
\<close>

definition isspace :: "char \<Rightarrow> bool" where
  "isspace c = (let n = (of_char c :: nat) in
     (9 \<le> n \<and> n \<le> 13) \<or> (28 \<le> n \<and> n \<le> 32) \<or> n = 133 \<or> n = 160)"

text \<open>\<open>s.strip()\<close>: leading and trailing whitespace removed.\<close>

definition str_strip :: "string \<Rightarrow> string" where
  "str_strip s = rev (dropWhile isspace (rev (dropWhile isspace s)))"

text \<open>
  \<open>s.split()\<close> with no separator: skip whitespace, cut the maximal run of
  non-whitespace, repeat; no empty token is produced.
\<close>

function str_split :: "string \<Rightarrow> string list" where
  "str_split s =
     (let r = dropWhile isspace s in
      if r = [] then []
      else takeWhile (\<lambda>c. \<not> isspace c) r # str_split (dropWhile (\<lambda>c. \<not> isspace c) r))"
  by pat_completeness auto
termination
proof (relation "measure length")
  show "wf (measure length)" by simp
next
  fix s r :: string
  assume r: "r = dropWhile isspace s" and ne: "r \<noteq> []"
  obtain c cs where rc: "r = c # cs" using ne by (cases r) auto
  have "\<not> isspace (hd (dropWhile isspace s))"
    using ne r hd_dropWhile[of isspace s] by simp
  then have "\<not> isspace c" using r rc by (metis list.sel(1))
  then have "length (dropWhile (\<lambda>c. \<not> isspace c) r) \<le> length cs"
    by (simp add: rc length_dropWhile_le)
  moreover have "length r \<le> length s" by (simp add: r length_dropWhile_le)
  ultimately show "(dropWhile (\<lambda>c. \<not> isspace c) r, s) \<in> measure length"
    using rc by simp
qed

declare str_split.simps [simp del]

text \<open>\<open>sep.join(xs)\<close>.\<close>

fun str_join :: "string \<Rightarrow> string list \<Rightarrow> string" where
  "str_join sep [] = []"
| "str_join sep [x] = x"
| "str_join sep (x # y # zs) = x @ sep @ str_join sep (y # zs)"

subsection \<open>Integers: \<open>int(item)\<close> and \<open>str(n)\<close>\<close>

definition is_digit :: "char \<Rightarrow> bool" where
  "is_digit c = (CHR ''0'' \<le> c \<and> c \<le> CHR ''9'')"

definition digit_val :: "char \<Rightarrow> nat" where
  "digit_val c = of_char c - 48"

text \<open>
  The digit scan of \<open>int\<close> in base 10: digits, with single underscores allowed between
  two digits.  The flag records that the previous character was an underscore.
\<close>

fun scan_digits :: "nat \<Rightarrow> bool \<Rightarrow> string \<Rightarrow> nat option" where
  "scan_digits n u [] = (if u then None else Some n)"
| "scan_digits n u (c # cs) =
     (if is_digit c then scan_digits (10 * n + digit_val c) False cs
      else if c = CHR ''_'' \<and> \<not> u then scan_digits n True cs
      else None)"

definition parse_digits :: "string \<Rightarrow> nat option" where
  "parse_digits s =
     (case s of
        [] \<Rightarrow> None
      | c # cs \<Rightarrow> if is_digit c then scan_digits (digit_val c) False cs else None)"

text \<open>
  \<open>int(item)\<close> on a token without whitespace: an optional sign and the digits.
  \<open>None\<close> stands for the \<open>ValueError\<close> that \<open>parse_input\<close> catches.  Integers are
  unbounded; the limit that recent interpreters put on the number of digits converted
  (4300) is above the 1024 bytes of a request.
\<close>

definition py_int :: "string \<Rightarrow> int option" where
  "py_int s =
     (case s of
        [] \<Rightarrow> None
      | c # cs \<Rightarrow>
          if c = CHR ''-'' then map_option (\<lambda>n. - int n) (parse_digits cs)
          else if c = CHR ''+'' then map_option int (parse_digits cs)
          else map_option int (parse_digits s))"

definition digit_char :: "nat \<Rightarrow> char" where
  "digit_char d = char_of (48 + d)"

fun digits_of :: "nat \<Rightarrow> string" where
  "digits_of n =
     (if n < 10 then [digit_char n] else digits_of (n div 10) @ [digit_char (n mod 10)])"

declare digits_of.simps [simp del]

text \<open>\<open>str(n)\<close> for an integer: the decimal digits, with a minus sign when negative.\<close>

definition str_int :: "int \<Rightarrow> string" where
  "str_int i = (if i < 0 then CHR ''-'' # digits_of (nat (- i)) else digits_of (nat i))"

section \<open>Values\<close>

text \<open>
  A float is kept by its exact value: every double other than NaN is a rational or an
  infinity, and Python compares floats with floats and with integers by exact value.
  Negative zero is a float of its own that compares equal to zero.
\<close>

datatype pyfloat = FNaN | FNegInf | FNegZero | FFinite rat | FPosInf

datatype Value = VInt int | VFloat pyfloat | VText string

text \<open>
  The conversion between text and doubles (\<open>float(item)\<close>, and \<open>str(x)\<close> on a float) is
  the runtime's and is taken as a parameter.  \<open>float_parse\<close> returns \<open>None\<close> where
  \<open>float\<close> raises \<open>ValueError\<close>.
\<close>

record float_impl =
  float_parse :: "string \<Rightarrow> pyfloat option"
  float_str :: "pyfloat \<Rightarrow> string"

definition py_str :: "float_impl \<Rightarrow> Value \<Rightarrow> string" where
  "py_str F v = (case v of VInt i \<Rightarrow> str_int i | VFloat f \<Rightarrow> float_str F f | VText t \<Rightarrow> t)"

subsection \<open>Exceptions\<close>

text \<open>
  The exception classes the code names or can meet.  All but \<open>KeyboardInterrupt\<close> derive
  from \<open>Exception\<close>, so an \<open>except Exception\<close> clause catches them.
\<close>

datatype exn_class =
  TypeError | ValueError | OverflowError | UnicodeDecodeError
  | ConnectionRefusedError | ConnectionResetError | BlockingIOError | SocketTimeout
  | OtherException | KeyboardInterrupt

datatype pyexn = Raise (exn_cls: exn_class) (message: string)

definition is_exception :: "pyexn \<Rightarrow> bool" where
  "is_exception e = (exn_cls e \<noteq> KeyboardInterrupt)"

subsection \<open>Rich comparison\<close>

text \<open>
  The position of a number on the extended rational line; NaN has none.  Pairs are
  ordered lexicographically, so \<open>(-1, _) < (0, q) < (1, _)\<close>.
\<close>

definition float_key :: "pyfloat \<Rightarrow> (int \<times> rat) option" where
  "float_key f =
     (case f of
        FNaN \<Rightarrow> None
      | FNegInf \<Rightarrow> Some (- 1, 0)
      | FNegZero \<Rightarrow> Some (0, 0)
      | FFinite q \<Rightarrow> Some (0, q)
      | FPosInf \<Rightarrow> Some (1, 0))"

datatype cmp_op = Lt | Le | Ge

definition op_symbol :: "cmp_op \<Rightarrow> string" where
  "op_symbol op = (case op of Lt \<Rightarrow> ''<'' | Le \<Rightarrow> ''<='' | Ge \<Rightarrow> ''>='')"

definition type_name :: "Value \<Rightarrow> string" where
  "type_name v = (case v of VInt _ \<Rightarrow> ''int'' | VFloat _ \<Rightarrow> ''float'' | VText _ \<Rightarrow> ''str'')"

definition unsupported :: "cmp_op \<Rightarrow> Value \<Rightarrow> Value \<Rightarrow> pyexn" where
  "unsupported op a b =
     Raise TypeError
       ([CHR 0x27] @ op_symbol op @ [CHR 0x27] @ '' not supported between instances of ''
        @ [CHR 0x27] @ type_name a @ [CHR 0x27] @ '' and '' @ [CHR 0x27] @ type_name b @ [CHR 0x27])"

definition ord_op :: "cmp_op \<Rightarrow> 'a::linorder \<Rightarrow> 'a \<Rightarrow> bool" where
  "ord_op op x y = (case op of Lt \<Rightarrow> x < y | Le \<Rightarrow> x \<le> y | Ge \<Rightarrow> y \<le> x)"

definition num_key :: "Value \<Rightarrow> (int \<times> rat) option" where
  "num_key v =
     (case v of VInt i \<Rightarrow> Some (0, of_int i) | VFloat f \<Rightarrow> float_key f | VText _ \<Rightarrow> None)"

definition num_cmp :: "cmp_op \<Rightarrow> Value \<Rightarrow> Value \<Rightarrow> bool" where
  "num_cmp op a b =
     (case (num_key a, num_key b) of
        (Some x, Some y) \<Rightarrow> ord_op op x y
      | _ \<Rightarrow> False)"

text \<open>
  \<open>a < b\<close>, \<open>a <= b\<close>, \<open>a >= b\<close>: text against text by code points, number against
  number by value (false when a NaN takes part), text against a number raises
  \<open>TypeError\<close>.
\<close>

definition py_cmp :: "cmp_op \<Rightarrow> Value \<Rightarrow> Value \<Rightarrow> pyexn + bool" where
  "py_cmp op a b =
     (case (a, b) of
        (VText s, VText t) \<Rightarrow> Inr (ord_op op s t)
      | (VText s, _) \<Rightarrow> Inl (unsupported op a b)
      | (_, VText t) \<Rightarrow> Inl (unsupported op a b)
      | _ \<Rightarrow> Inr (num_cmp op a b))"

definition is_text :: "Value \<Rightarrow> bool" where
  "is_text v = (case v of VText _ \<Rightarrow> True | _ \<Rightarrow> False)"



text \<open>A list that holds a text and a number: its elements have no common order.\<close>

definition mixed_tags :: "Value list \<Rightarrow> bool" where
  "mixed_tags data = (\<exists>a\<in>set data. \<exists>b\<in>set data. is_text a \<and> \<not> is_text b)"




section \<open>sorting.py\<close>

text \<open>
  The builtin \<open>sorted\<close> is a stable comparison sort that asks only \<open>y < x\<close> and lets
  the \<open>TypeError\<close> of a comparison escape.  It is modelled by stable insertion:
  \<open>x\<close> goes before the first \<open>y\<close> that is not below it.  With \<open>reverse=True\<close> the list is
  reversed, sorted ascending and reversed again, which is how stability is kept.
  Where \<open>y < x\<close> is not a strict weak order (a NaN among the floats) the order of the
  result of the builtin depends on its algorithm; only its being a permutation is
  used there.
\<close>

fun py_insort :: "Value \<Rightarrow> Value list \<Rightarrow> pyexn + Value list" where
  "py_insort x [] = Inr [x]"
| "py_insort x (y # ys) =
     (case py_cmp Lt y x of
        Inl e \<Rightarrow> Inl e
      | Inr False \<Rightarrow> Inr (x # y # ys)
      | Inr True \<Rightarrow> (case py_insort x ys of Inl e \<Rightarrow> Inl e | Inr zs \<Rightarrow> Inr (y # zs)))"

fun py_isort :: "Value list \<Rightarrow> pyexn + Value list" where
  "py_isort [] = Inr []"
| "py_isort (x # xs) = (case py_isort xs of Inl e \<Rightarrow> Inl e | Inr ys \<Rightarrow> py_insort x ys)"

definition py_sorted :: "Value list \<Rightarrow> bool \<Rightarrow> pyexn + Value list" where
  "py_sorted xs reverse =
     (if reverse then map_sum id rev (py_isort (rev xs)) else py_isort xs)"

definition warning_line :: "pyexn \<Rightarrow> string" where
  "warning_line e = ''Warning: Unable to sort mixed incompatible types: '' @ message e"

text \<open>
  \<open>sort_data(data, reverse)\<close>: the result and the lines printed.  Only \<open>TypeError\<close> is
  caught; any other exception would escape (\<open>Inl\<close>).
\<close>

definition sort_data :: "Value list \<Rightarrow> bool \<Rightarrow> pyexn + (Value list \<times> string list)" where
  "sort_data data reverse =
     (if data = [] then Inr ([], [])
      else
        (case py_sorted data reverse of
           Inr ys \<Rightarrow> Inr (ys, [])
         | Inl e \<Rightarrow>
             if exn_cls e = TypeError then Inr (data, [warning_line e]) else Inl e))"

text \<open>
  \<open>is_sorted(data, reverse)\<close>: \<open>all\<close> over the adjacent pairs, left to right, stopping at
  the first false comparison; a comparison that raises ends it with that exception.
\<close>

fun all_adjacent :: "cmp_op \<Rightarrow> Value list \<Rightarrow> pyexn + bool" where
  "all_adjacent op (x # y # zs) =
     (case py_cmp op x y of
        Inl e \<Rightarrow> Inl e
      | Inr False \<Rightarrow> Inr False
      | Inr True \<Rightarrow> all_adjacent op (y # zs))"
| "all_adjacent op xs = Inr True"

definition is_sorted :: "Value list \<Rightarrow> bool \<Rightarrow> pyexn + bool" where
  "is_sorted data reverse =
     (if length data \<le> 1 then Inr True
      else if reverse then all_adjacent Ge data
      else all_adjacent Le data)"

subsection \<open>List objects\<close>

text \<open>
  Lists are mutable objects, so whether \<open>sort_data\<close> touches its argument is a question
  about the store.  A store maps object identities to list contents; identities from
  \<open>next_id\<close> on are free.  \<open>sorted\<close> allocates a new list and leaves its argument as
  it is.
\<close>

record store =
  cell :: "nat \<Rightarrow> Value list"
  next_id :: nat

definition alloc :: "store \<Rightarrow> Value list \<Rightarrow> store \<times> nat" where
  "alloc h xs = (h\<lparr>cell := (cell h)(next_id h := xs), next_id := Suc (next_id h)\<rparr>, next_id h)"

text \<open>\<open>sort_data\<close> on objects: the store after the call, the object returned, the lines printed.\<close>

definition sort_data_obj :: "store \<Rightarrow> nat \<Rightarrow> bool \<Rightarrow> pyexn + (store \<times> nat \<times> string list)" where
  "sort_data_obj h data reverse =
     (if cell h data = [] then (case alloc h [] of (h', r) \<Rightarrow> Inr (h', r, []))
      else
        (case py_sorted (cell h data) reverse of
           Inr ys \<Rightarrow> (case alloc h ys of (h', r) \<Rightarrow> Inr (h', r, []))
         | Inl e \<Rightarrow>
             if exn_cls e = TypeError then Inr (h, data, [warning_line e]) else Inl e))"

section \<open>io\_handler.py\<close>

text \<open>One token of \<open>parse_input\<close>: integer first, float next, otherwise kept as text.\<close>

definition parse_item :: "float_impl \<Rightarrow> string \<Rightarrow> Value" where
  "parse_item F item =
     (case py_int item of
        Some i \<Rightarrow> VInt i
      | None \<Rightarrow> (case float_parse F item of Some f \<Rightarrow> VFloat f | None \<Rightarrow> VText item))"

definition parse_input :: "float_impl \<Rightarrow> string \<Rightarrow> Value list" where
  "parse_input F input_str =
     (if input_str = [] \<or> str_strip input_str = [] then []
      else map (parse_item F) (str_split input_str))"

section \<open>network\_handler.py\<close>

subsection \<open>The sorting handler\<close>

text \<open>
  \<open>create_sorting_handler(sort_function, parse_function)\<close> returns the closure
  \<open>handler\<close>; an exception of either function that derives from \<open>Exception\<close> becomes
  the response text, any other escapes.
\<close>

definition processing_error :: "pyexn \<Rightarrow> pyexn + string" where
  "processing_error e =
     (if is_exception e then Inr (''Error processing data: '' @ message e) else Inl e)"

definition create_sorting_handler ::
  "float_impl \<Rightarrow> (Value list \<Rightarrow> pyexn + Value list) \<Rightarrow> (string \<Rightarrow> pyexn + Value list)
     \<Rightarrow> string \<Rightarrow> pyexn + string" where
  "create_sorting_handler F sort_function parse_function input_data =
     (case parse_function input_data of
        Inl e \<Rightarrow> processing_error e
      | Inr data \<Rightarrow>
          if data = [] then Inr ''Error: No valid data to sort''
          else
            (case sort_function data of
               Inl e \<Rightarrow> processing_error e
             | Inr sorted_data \<Rightarrow> Inr (str_join '' '' (map (py_str F) sorted_data))))"

text \<open>
  The handler the server mode of \<open>main.py\<close> installs:
  \<open>create_sorting_handler(sort_data, parse_input)\<close>, with \<open>sort_data\<close> called on one
  argument.
\<close>

definition sorting_handler :: "float_impl \<Rightarrow> string \<Rightarrow> pyexn + string" where
  "sorting_handler F =
     create_sorting_handler F
       (\<lambda>data. map_sum id fst (sort_data data False))
       (\<lambda>input_str. Inr (parse_input F input_str))"

subsection \<open>The connection worker\<close>

text \<open>
  What the worker meets at one turn of its loop: the value of \<open>is_running\<close> at the loop
  test, what \<open>recv(1024).decode('utf-8')\<close> gives, and what \<open>send\<close> gives.
  \<open>Received txt\<close>: the bytes read (none when the peer has closed) decode to \<open>txt\<close>;
  \<open>RecvFault e\<close>: reading or decoding raises \<open>e\<close>.
\<close>

datatype recv_outcome = Received string | RecvFault pyexn

datatype send_outcome = SendOk | SendFault pyexn

record tick =
  is_running :: bool
  recv_result :: recv_outcome
  send_result :: send_outcome

datatype event = Print string | HandlerCall string | SockSend string | SockClose

text \<open>
  How the \<open>while\<close> loop ends: by its test or a \<open>break\<close>, by an exception, or not at
  all within the script (the worker stays blocked in \<open>recv\<close>).
\<close>

datatype loop_end = Exited | Raised pyexn | Blocked

definition respond :: "(string \<Rightarrow> pyexn + string) option \<Rightarrow> string \<Rightarrow> (pyexn + string) \<times> event list" where
  "respond client_handler data =
     (case client_handler of
        Some h \<Rightarrow> (h data, [HandlerCall data])
      | None \<Rightarrow> (Inr (''Echo: '' @ data), []))"

fun worker_loop ::
  "(string \<Rightarrow> pyexn + string) option \<Rightarrow> string \<Rightarrow> tick list \<Rightarrow> event list \<times> loop_end" where
  "worker_loop client_handler address [] = ([], Blocked)"
| "worker_loop client_handler address (t # ts) =
     (if \<not> is_running t then ([], Exited)
      else
        (case recv_result t of
           RecvFault e \<Rightarrow> ([], Raised e)
         | Received raw \<Rightarrow>
             (let data = str_strip raw in
              if data = [] then ([], Exited)
              else
                (let received = Print (''Received from '' @ address @ '': '' @ data) in
                 case respond client_handler data of
                   (Inl e, calls) \<Rightarrow> (received # calls, Raised e)
                 | (Inr response, calls) \<Rightarrow>
                     (case send_result t of
                        SendFault e \<Rightarrow> (received # calls, Raised e)
                      | SendOk \<Rightarrow>
                          (case worker_loop client_handler address ts of
                             (evs, fin) \<Rightarrow>
                               (received # calls @ SockSend (response @ ''\<newline>'') # evs, fin)))))))"

text \<open>
  \<open>handle_client_connection\<close>: the events in order, and how the call ends: \<open>Some None\<close>
  for a normal return, \<open>Some (Some e)\<close> when \<open>e\<close> escapes after the \<open>finally\<close> block,
  \<open>None\<close> when the worker is still blocked at the end of the script.
\<close>

definition handle_client_connection ::
  "(string \<Rightarrow> pyexn + string) option \<Rightarrow> string \<Rightarrow> tick list \<Rightarrow> event list \<times> pyexn option option" where
  "handle_client_connection client_handler address script =
     (let established = Print (''Connection established with '' @ address);
          finally = [SockClose, Print (''Connection with '' @ address @ '' closed'')]
      in
        case worker_loop client_handler address script of
          (evs, Blocked) \<Rightarrow> (established # evs, None)
        | (evs, Exited) \<Rightarrow> (established # evs @ finally, Some None)
        | (evs, Raised e) \<Rightarrow>
            if exn_cls e = ConnectionResetError then
              (established # evs
                 @ Print (''Client '' @ address @ '' disconnected unexpectedly'') # finally,
               Some None)
            else if is_exception e then
              (established # evs
                 @ Print (''Error handling client '' @ address @ '': '' @ message e) # finally,
               Some None)
            else (established # evs @ finally, Some (Some e)))"

subsection \<open>The client\<close>

record NetworkClient =
  host :: string
  port :: int

text \<open>
  What the network does to one call of \<open>send_data\<close>: the first socket operation that
  raises, or the decoded reply.  A refused connection is \<open>ConnectRaises\<close> of a
  \<open>ConnectionRefusedError\<close>, a timeout is a \<open>SocketTimeout\<close> raised by \<open>connect\<close>,
  \<open>send\<close> or \<open>recv\<close>.
\<close>

datatype exchange =
  SocketRaises pyexn | ConnectRaises pyexn | SendRaises pyexn | RecvRaises pyexn | Reply string

datatype sock_op =
  OpSocket | OpSetTimeout int | OpConnect string int | OpConnectEx string int
  | OpSend string | OpRecv nat | OpClose

text \<open>The three \<open>except\<close> clauses of \<open>send_data\<close>, in their order.\<close>

definition send_data_except :: "NetworkClient \<Rightarrow> int \<Rightarrow> pyexn \<Rightarrow> pyexn + string" where
  "send_data_except c timeout e =
     (if exn_cls e = ConnectionRefusedError then
        Inr (''Error: Cannot connect to server at '' @ host c @ '':'' @ str_int (port c))
      else if exn_cls e = SocketTimeout then
        Inr (''Error: Connection timeout after '' @ str_int timeout @ '' seconds'')
      else if is_exception e then Inr (''Error: '' @ message e)
      else Inl e)"

text \<open>
  \<open>settimeout(t)\<close> on an integer number of seconds.  The interpreter keeps a timeout as a
  signed 64-bit count of nanoseconds: a number of seconds that does not fit raises
  \<open>OverflowError\<close>, a negative one that fits raises \<open>ValueError\<close>.  Zero is accepted and
  makes the socket non-blocking.  (The limit is that of a platform with \<open>poll\<close>; without
  it the timeout in milliseconds must also fit a C \<open>int\<close>.)
\<close>

definition timeout_max :: int where
  "timeout_max = 9223372036"

definition settimeout :: "int \<Rightarrow> pyexn option" where
  "settimeout t =
     (if t < - timeout_max \<or> timeout_max < t then
        Some (Raise OverflowError ''timestamp too large to convert to C _PyTime_t'')
      else if t < 0 then Some (Raise ValueError ''Timeout value out of range'')
      else None)"

text \<open>
  \<open>send_data\<close>: what it returns (or lets escape) and the operations it performed on its
  socket, in order.
\<close>

definition send_data ::
  "NetworkClient \<Rightarrow> string \<Rightarrow> int \<Rightarrow> exchange \<Rightarrow> (pyexn + string) \<times> sock_op list" where
  "send_data c data timeout x =
     (case x of
        SocketRaises e \<Rightarrow> (send_data_except c timeout e, [])
      | _ \<Rightarrow>
        (case settimeout timeout of
           Some e \<Rightarrow> (send_data_except c timeout e, [OpSocket, OpSetTimeout timeout])
         | None \<Rightarrow>
          (let setup = [OpSocket, OpSetTimeout timeout, OpConnect (host c) (port c)] in
           case x of
             ConnectRaises e \<Rightarrow> (send_data_except c timeout e, setup)
           | SendRaises e \<Rightarrow> (send_data_except c timeout e, setup @ [OpSend data])
           | RecvRaises e \<Rightarrow> (send_data_except c timeout e, setup @ [OpSend data, OpRecv 1024])
           | Reply raw \<Rightarrow> (Inr (str_strip raw), setup @ [OpSend data, OpRecv 1024, OpClose])
           | SocketRaises e \<Rightarrow> (send_data_except c timeout e, []))))"





definition refused_exchange :: exchange where
  "refused_exchange = ConnectRaises (Raise ConnectionRefusedError ''[Errno 111] Connection refused'')"



section \<open>Conditions and sample inputs\<close>


text \<open>A fragment of the runtime's float conversion, enough to evaluate examples.\<close>

definition sample_floats :: float_impl where
  "sample_floats =
     \<lparr>float_parse = (\<lambda>s.
          if s = ''0.25'' then Some (FFinite (1 / 4))
          else if s = ''1.5'' then Some (FFinite (3 / 2))
          else if s = ''2.50'' then Some (FFinite (5 / 2))
          else if s = ''2.5'' then Some (FFinite (5 / 2))
          else if s = ''inf'' then Some FPosInf
          else if s = ''nan'' then Some FNaN
          else None),
      float_str = (\<lambda>x.
          if x = FFinite (1 / 4) then ''0.25''
          else if x = FFinite (3 / 2) then ''1.5''
          else if x = FFinite (5 / 2) then ''2.5''
          else if x = FPosInf then ''inf''
          else ''nan'')\<rparr>"

text \<open>A store with one list object, at identity 0.\<close>

definition sample_store :: store where
  "sample_store = \<lparr>cell = (\<lambda>_. [])(0 := [VInt 3, VInt 1, VInt 2]), next_id = 1\<rparr>"


text \<open>A turn of the worker's loop at which the server runs, \<open>raw\<close> arrives and the reply is sent.\<close>

definition sample_tick :: "string \<Rightarrow> tick" where
  "sample_tick raw = \<lparr>is_running = True, recv_result = Received raw, send_result = SendOk\<rparr>"

definition sample_client :: NetworkClient where
  "sample_client = \<lparr>host = ''localhost'', port = 8080\<rparr>"

section \<open>Properties of the text primitives\<close>

lemma isspace_space [simp]: "isspace CHR '' ''"
  by (simp add: isspace_def)

lemma dropWhile_all_iff: "(\<forall>c\<in>set (dropWhile P s). P c) \<longleftrightarrow> (\<forall>c\<in>set s. P c)"
proof
  assume a: "\<forall>c\<in>set (dropWhile P s). P c"
  have "dropWhile P s = []"
  proof (rule ccontr)
    assume ne: "dropWhile P s \<noteq> []"
    then have "\<not> P (hd (dropWhile P s))" by (rule hd_dropWhile)
    moreover have "hd (dropWhile P s) \<in> set (dropWhile P s)" using ne by simp
    ultimately show False using a by blast
  qed
  then show "\<forall>c\<in>set s. P c" by (simp add: dropWhile_eq_Nil_conv)
next
  assume "\<forall>c\<in>set s. P c"
  then show "\<forall>c\<in>set (dropWhile P s). P c" by (auto dest: set_dropWhileD)
qed

lemma str_strip_eq_Nil_iff: "str_strip s = [] \<longleftrightarrow> (\<forall>c\<in>set s. isspace c)"
  by (simp add: str_strip_def dropWhile_eq_Nil_conv dropWhile_all_iff)

lemma str_split_eq_Nil_iff: "str_split s = [] \<longleftrightarrow> (\<forall>c\<in>set s. isspace c)"
  by (subst str_split.simps) (auto simp: Let_def dropWhile_eq_Nil_conv)








subsection \<open>Decimal integers\<close>
















section \<open>Properties of comparison and sorting\<close>

lemma is_textE: "is_text a \<Longrightarrow> \<exists>s. a = VText s"
  by (cases a) (simp_all add: is_text_def)

lemma py_cmp_text: "py_cmp op (VText s) (VText t) = Inr (ord_op op s t)"
  by (simp add: py_cmp_def)

lemma py_cmp_num: "\<not> is_text a \<Longrightarrow> \<not> is_text b \<Longrightarrow> py_cmp op a b = Inr (num_cmp op a b)"
  by (cases a; cases b) (simp_all add: py_cmp_def is_text_def)

lemma py_cmp_mixed: "is_text a \<noteq> is_text b \<Longrightarrow> py_cmp op a b = Inl (unsupported op a b)"
  by (cases a; cases b) (simp_all add: py_cmp_def is_text_def)

lemma py_cmp_raises_iff: "isl (py_cmp op a b) \<longleftrightarrow> is_text a \<noteq> is_text b"
  by (cases a; cases b) (simp_all add: py_cmp_def is_text_def)

lemma mixed_tags_iff:
  "mixed_tags data \<longleftrightarrow> (\<exists>a\<in>set data. \<exists>b\<in>set data. isl (py_cmp Lt a b))"
  unfolding mixed_tags_def py_cmp_raises_iff by blast

lemma py_cmp_TypeError: "py_cmp op a b = Inl e \<Longrightarrow> exn_cls e = TypeError"
  by (cases a; cases b) (auto simp: py_cmp_def unsupported_def)

lemma num_cmp_Le_Lt: "num_cmp Le x y \<Longrightarrow> \<not> num_cmp Lt y x"
  by (cases "num_key x"; cases "num_key y") (simp_all add: num_cmp_def ord_op_def)

lemma num_cmp_Ge_Le: "num_cmp Ge x y \<Longrightarrow> num_cmp Le y x"
  by (cases "num_key x"; cases "num_key y") (simp_all add: num_cmp_def ord_op_def)

lemma py_cmp_Le_Lt: "py_cmp Le x y = Inr True \<Longrightarrow> py_cmp Lt y x = Inr False"
proof -
  assume a: "py_cmp Le x y = Inr True"
  then have "\<not> isl (py_cmp Le x y)" by simp
  then have k: "is_text x = is_text y" by (simp add: py_cmp_raises_iff)
  show ?thesis
  proof (cases "is_text x")
    case True
    then obtain s t where "x = VText s" "y = VText t" using k is_textE by blast
    with a show ?thesis by (simp add: py_cmp_text ord_op_def)
  next
    case False
    with a k show ?thesis using num_cmp_Le_Lt[of x y] by (simp add: py_cmp_num)
  qed
qed

lemma py_cmp_Ge_Le: "py_cmp Ge x y = Inr True \<Longrightarrow> py_cmp Le y x = Inr True"
proof -
  assume a: "py_cmp Ge x y = Inr True"
  then have "\<not> isl (py_cmp Ge x y)" by simp
  then have k: "is_text x = is_text y" by (simp add: py_cmp_raises_iff)
  show ?thesis
  proof (cases "is_text x")
    case True
    then obtain s t where "x = VText s" "y = VText t" using k is_textE by blast
    with a show ?thesis by (simp add: py_cmp_text ord_op_def)
  next
    case False
    with a k show ?thesis using num_cmp_Ge_Le[of x y] by (simp add: py_cmp_num)
  qed
qed





lemma py_insort_Inr: "py_insort x ys = Inr zs \<Longrightarrow> mset zs = add_mset x (mset ys)"
  by (induction ys arbitrary: zs) (auto split: sum.splits bool.splits)

lemma py_insort_Inl: "py_insort x ys = Inl e \<Longrightarrow> exn_cls e = TypeError"
  by (induction ys) (auto split: sum.splits bool.splits dest: py_cmp_TypeError)

lemma py_isort_Inr: "py_isort xs = Inr ys \<Longrightarrow> mset ys = mset xs"
  by (induction xs arbitrary: ys) (auto split: sum.splits dest: py_insort_Inr)

lemma py_isort_Inl: "py_isort xs = Inl e \<Longrightarrow> exn_cls e = TypeError"
  by (induction xs) (auto split: sum.splits dest: py_insort_Inl)

lemma py_insort_same_kind:
  "\<forall>y\<in>set ys. is_text y = is_text x \<Longrightarrow> \<exists>zs. py_insort x ys = Inr zs"
proof (induction ys)
  case Nil
  then show ?case by simp
next
  case (Cons y ys)
  then have "\<not> isl (py_cmp Lt y x)" by (simp add: py_cmp_raises_iff)
  then obtain b where b: "py_cmp Lt y x = Inr b" by (cases "py_cmp Lt y x") auto
  from Cons obtain zs where "py_insort x ys = Inr zs" by auto
  with b show ?case by (cases b) auto
qed

lemma py_insort_other_kind:
  "ys \<noteq> [] \<Longrightarrow> is_text (hd ys) \<noteq> is_text x \<Longrightarrow> \<exists>e. py_insort x ys = Inl e"
proof (cases ys)
  case Nil
  then show "ys \<noteq> [] \<Longrightarrow> ?thesis" by simp
next
  case (Cons y ys')
  assume "is_text (hd ys) \<noteq> is_text x"
  then have "isl (py_cmp Lt y x)" by (simp add: py_cmp_raises_iff Cons)
  then obtain e where "py_cmp Lt y x = Inl e" by (cases "py_cmp Lt y x") auto
  then show ?thesis by (simp add: Cons)
qed

lemma py_isort_not_mixed: "\<not> mixed_tags xs \<Longrightarrow> \<exists>ys. py_isort xs = Inr ys"
proof (induction xs)
  case Nil
  then show ?case by simp
next
  case (Cons x xs)
  have nm: "\<not> mixed_tags xs" using Cons.prems by (auto simp: mixed_tags_def)
  then obtain ys where ys: "py_isort xs = Inr ys" using Cons.IH by auto
  then have "set ys = set xs" using py_isort_Inr mset_eq_setD by blast
  moreover have "\<forall>y\<in>set xs. is_text y = is_text x" using Cons.prems by (auto simp: mixed_tags_def)
  ultimately obtain zs where "py_insort x ys = Inr zs" using py_insort_same_kind[of ys x] by auto
  with ys show ?case by simp
qed

lemma py_isort_mixed: "mixed_tags xs \<Longrightarrow> \<exists>e. py_isort xs = Inl e"
proof (induction xs)
  case Nil
  then show ?case by (simp add: mixed_tags_def)
next
  case (Cons x xs)
  show ?case
  proof (cases "mixed_tags xs")
    case True
    then show ?thesis using Cons.IH by auto
  next
    case False
    then obtain ys where ys: "py_isort xs = Inr ys" using py_isort_not_mixed by blast
    then have s: "set ys = set xs" using py_isort_Inr mset_eq_setD by blast
    from Cons.prems False have "\<exists>y\<in>set xs. is_text y \<noteq> is_text x"
      by (auto simp: mixed_tags_def)
    moreover from False have "\<forall>a\<in>set xs. \<forall>b\<in>set xs. is_text a = is_text b"
      by (auto simp: mixed_tags_def)
    ultimately have all: "\<forall>y\<in>set xs. is_text y \<noteq> is_text x" by blast
    have "xs \<noteq> []" using \<open>\<exists>y\<in>set xs. is_text y \<noteq> is_text x\<close> by auto
    then have "set ys \<noteq> {}" by (simp add: s)
    then have ne: "ys \<noteq> []" by simp
    then have "hd ys \<in> set ys" by simp
    then have "hd ys \<in> set xs" by (simp only: s)
    then have "is_text (hd ys) \<noteq> is_text x" using all by blast
    then obtain e where "py_insort x ys = Inl e"
      using py_insort_other_kind[OF ne] by blast
    with ys show ?thesis by simp
  qed
qed

lemma mixed_tags_rev: "mixed_tags (rev xs) = mixed_tags xs"
  by (simp add: mixed_tags_def)

lemma py_sorted_mixed:
  "mixed_tags xs \<Longrightarrow> \<exists>e. py_sorted xs r = Inl e \<and> exn_cls e = TypeError"
proof -
  assume m: "mixed_tags xs"
  show ?thesis
  proof (cases r)
    case True
    from m have "mixed_tags (rev xs)" by (simp add: mixed_tags_rev)
    then obtain e where e: "py_isort (rev xs) = Inl e" using py_isort_mixed by blast
    then show ?thesis using py_isort_Inl[OF e] True by (simp add: py_sorted_def)
  next
    case False
    obtain e where e: "py_isort xs = Inl e" using py_isort_mixed[OF m] by blast
    then show ?thesis using py_isort_Inl[OF e] False by (simp add: py_sorted_def)
  qed
qed

lemma py_sorted_Inr: "py_sorted xs r = Inr ys \<Longrightarrow> mset ys = mset xs"
  by (cases r; cases "py_isort (rev xs)")
     (auto simp: py_sorted_def dest!: py_isort_Inr)

lemma py_sorted_Inl: "py_sorted xs r = Inl e \<Longrightarrow> exn_cls e = TypeError"
  by (cases r; cases "py_isort (rev xs)")
     (auto simp: py_sorted_def dest!: py_isort_Inl)

lemma py_sorted_not_mixed: "\<not> mixed_tags xs \<Longrightarrow> \<exists>ys. py_sorted xs r = Inr ys"
  using py_isort_not_mixed[of xs] py_isort_not_mixed[of "rev xs"]
  by (auto simp: py_sorted_def mixed_tags_rev)

subsection \<open>\<open>is_sorted\<close> and \<open>sort_data\<close>\<close>

lemma all_adjacent_successively:
  "all_adjacent op xs = Inr True \<longleftrightarrow> successively (\<lambda>a b. py_cmp op a b = Inr True) xs"
  by (induction op xs rule: all_adjacent.induct) (auto split: sum.splits bool.splits)

lemma all_adjacent_Le_isort: "all_adjacent Le xs = Inr True \<Longrightarrow> py_isort xs = Inr xs"
proof (induction xs)
  case Nil
  then show ?case by simp
next
  case (Cons x xs)
  show ?case
  proof (cases xs)
    case Nil
    then show ?thesis by simp
  next
    case (Cons y ys)
    from Cons.prems have c: "py_cmp Le x y = Inr True" and r: "all_adjacent Le xs = Inr True"
      by (auto simp: Cons split: sum.splits bool.splits)
    have "py_isort xs = Inr xs" using Cons.IH r by simp
    moreover have "py_cmp Lt y x = Inr False" using c by (rule py_cmp_Le_Lt)
    ultimately show ?thesis by (simp add: Cons)
  qed
qed

lemma all_adjacent_Ge_rev: "all_adjacent Ge xs = Inr True \<Longrightarrow> all_adjacent Le (rev xs) = Inr True"
proof -
  assume "all_adjacent Ge xs = Inr True"
  then have "successively (\<lambda>a b. py_cmp Ge a b = Inr True) xs"
    by (simp add: all_adjacent_successively)
  then have "successively (\<lambda>a b. py_cmp Le b a = Inr True) xs"
    by (rule successively_mono) (auto dest: py_cmp_Ge_Le)
  then have "successively (\<lambda>a b. py_cmp Le a b = Inr True) (rev xs)"
    by (simp add: successively_rev)
  then show ?thesis by (simp add: all_adjacent_successively)
qed

lemma is_sorted_py_sorted: "is_sorted data reverse = Inr True \<Longrightarrow> py_sorted data reverse = Inr data"
proof -
  assume a: "is_sorted data reverse = Inr True"
  have adj: "all_adjacent (if reverse then Ge else Le) data = Inr True"
  proof (cases "length data \<le> 1")
    case True
    then show ?thesis by (cases data; cases "tl data") auto
  next
    case False
    with a show ?thesis by (simp add: is_sorted_def split: if_splits)
  qed
  show ?thesis
  proof (cases reverse)
    case True
    with adj have "all_adjacent Le (rev data) = Inr True" by (simp add: all_adjacent_Ge_rev)
    then have "py_isort (rev data) = Inr (rev data)" by (rule all_adjacent_Le_isort)
    then show ?thesis using True by (simp add: py_sorted_def)
  next
    case False
    with adj have "py_isort data = Inr data" by (simp add: all_adjacent_Le_isort)
    then show ?thesis using False by (simp add: py_sorted_def)
  qed
qed

text \<open>
  Claim C8.  Sorting is idempotent: when \<open>is_sorted(data, reverse)\<close> returns true,
  \<open>sort_data(data, reverse)\<close> returns the same list and prints nothing.
\<close>
theorem sort_data_idempotent:
  "is_sorted data reverse = Inr True \<Longrightarrow> sort_data data reverse = Inr (data, [])"
  by (simp add: sort_data_def is_sorted_py_sorted)

theorem sort_data_idempotent_witness:
  "is_sorted [VInt 1, VInt 2, VInt 2, VInt 5] False = Inr True
   \<and> sort_data [VInt 1, VInt 2, VInt 2, VInt 5] False = Inr ([VInt 1, VInt 2, VInt 2, VInt 5], [])
   \<and> is_sorted [VText ''pear'', VText ''fig'', VText ''apple''] True = Inr True
   \<and> sort_data [VText ''pear'', VText ''fig'', VText ''apple''] True
       = Inr ([VText ''pear'', VText ''fig'', VText ''apple''], [])"
proof -
  have a: "is_sorted [VInt 1, VInt 2, VInt 2, VInt 5] False = Inr True"
    by (simp add: is_sorted_def py_cmp_def num_cmp_def num_key_def ord_op_def)
  have b: "is_sorted [VText ''pear'', VText ''fig'', VText ''apple''] True = Inr True"
    by (simp add: is_sorted_def py_cmp_def ord_op_def)
  show ?thesis using a b sort_data_idempotent[OF a] sort_data_idempotent[OF b] by simp
qed

text \<open>
  Claim C2.  On a list that holds both a text and a number, \<open>sort_data\<close> does not raise:
  it returns the list as it was given, elements and order, and prints one warning, built
  from the \<open>TypeError\<close> of the comparison that failed.
\<close>
theorem sort_data_mixed_unchanged:
  "mixed_tags data \<Longrightarrow>
   \<exists>e. exn_cls e = TypeError \<and> sort_data data reverse = Inr (data, [warning_line e])"
proof -
  assume m: "mixed_tags data"
  then have "data \<noteq> []" by (auto simp: mixed_tags_def)
  moreover obtain e where "py_sorted data reverse = Inl e" "exn_cls e = TypeError"
    using py_sorted_mixed[OF m] by blast
  ultimately show ?thesis by (auto simp: sort_data_def)
qed

theorem sort_data_mixed_unchanged_witness:
  "mixed_tags [VInt 3, VText ''apple'', VFloat (FFinite (3 / 2))]
   \<and> (\<exists>e. exn_cls e = TypeError
        \<and> sort_data [VInt 3, VText ''apple'', VFloat (FFinite (3 / 2))] False
            = Inr ([VInt 3, VText ''apple'', VFloat (FFinite (3 / 2))], [warning_line e]))"
proof -
  have m: "mixed_tags [VInt 3, VText ''apple'', VFloat (FFinite (3 / 2))]"
    by (simp add: mixed_tags_def is_text_def)
  show ?thesis using m sort_data_mixed_unchanged[OF m, of False] by simp
qed

lemma sort_data_total:
  "\<exists>ys out. sort_data xs reverse = Inr (ys, out) \<and> mset ys = mset xs"
proof (cases "py_sorted xs reverse")
  case (Inl e)
  then have "exn_cls e = TypeError" by (rule py_sorted_Inl)
  with Inl show ?thesis by (simp add: sort_data_def)
next
  case (Inr ys)
  then have "mset ys = mset xs" by (rule py_sorted_Inr)
  with Inr show ?thesis by (auto simp: sort_data_def)
qed

lemma sort_data_obj_sort_data:
  "sort_data_obj h data reverse = Inr (h', r, out) \<Longrightarrow>
   sort_data (cell h data) reverse = Inr (cell h' r, out)"
  by (auto simp: sort_data_obj_def sort_data_def alloc_def split: if_splits sum.splits)

text \<open>
  Claim C10.  For every list object \<open>data\<close>, \<open>sort_data\<close> returns a list with the same
  elements in the same multiplicities, whether \<open>sorted\<close> succeeds or the fallback returns
  \<open>data\<close> itself, and no list object that existed before the call is changed by it, the
  argument included.
\<close>
theorem sort_data_permutation_no_mutation:
  assumes "data < next_id h"
  shows "\<exists>h' r out.
           sort_data_obj h data reverse = Inr (h', r, out)
           \<and> sort_data (cell h data) reverse = Inr (cell h' r, out)
           \<and> mset (cell h' r) = mset (cell h data)
           \<and> (\<forall>a < next_id h. cell h' a = cell h a)"
proof -
  show ?thesis
  proof (cases "py_sorted (cell h data) reverse")
    case (Inl e)
    then have "exn_cls e = TypeError" by (rule py_sorted_Inl)
    with Inl assms show ?thesis by (auto simp: sort_data_obj_def sort_data_def alloc_def)
  next
    case (Inr zs)
    then have "mset zs = mset (cell h data)" by (rule py_sorted_Inr)
    with Inr assms show ?thesis
      by (auto simp: sort_data_obj_def sort_data_def alloc_def)
  qed
qed

theorem sort_data_permutation_no_mutation_witness:
  "0 < next_id sample_store
   \<and> (\<exists>h' r out.
         sort_data_obj sample_store 0 False = Inr (h', r, out)
         \<and> cell h' r = [VInt 1, VInt 2, VInt 3]
         \<and> cell h' 0 = [VInt 3, VInt 1, VInt 2]
         \<and> mset (cell h' r) = mset (cell sample_store 0))"
proof -
  have n: "0 < next_id sample_store" by (simp add: sample_store_def)
  have c: "cell sample_store 0 = [VInt 3, VInt 1, VInt 2]" by (simp add: sample_store_def)
  have e: "sort_data [VInt 3, VInt 1, VInt 2] False = Inr ([VInt 1, VInt 2, VInt 3], [])"
    by (simp add: sort_data_def py_sorted_def py_cmp_def num_cmp_def num_key_def ord_op_def)
  from sort_data_permutation_no_mutation[OF n, of False]
  obtain h' r out where
    "sort_data_obj sample_store 0 False = Inr (h', r, out)"
    "sort_data (cell sample_store 0) False = Inr (cell h' r, out)"
    "mset (cell h' r) = mset (cell sample_store 0)"
    "\<forall>a < next_id sample_store. cell h' a = cell sample_store a"
    by blast
  then show ?thesis using n c e by auto
qed

section \<open>Properties of parsing and of the sorting handler\<close>

lemma parse_input_eq: "parse_input F s = map (parse_item F) (str_split s)"
proof (cases "\<forall>c\<in>set s. isspace c")
  case True
  then have "str_split s = []" by (simp add: str_split_eq_Nil_iff)
  moreover have "str_strip s = []" using True by (simp add: str_strip_eq_Nil_iff)
  ultimately show ?thesis by (simp add: parse_input_def)
next
  case False
  then have "str_strip s \<noteq> []" by (simp add: str_strip_eq_Nil_iff)
  moreover have "s \<noteq> []" using False by auto
  ultimately show ?thesis by (simp add: parse_input_def)
qed

lemma parse_input_eq_Nil_iff: "parse_input F s = [] \<longleftrightarrow> (\<forall>c\<in>set s. isspace c)"
  by (simp add: parse_input_eq str_split_eq_Nil_iff)







lemma sorting_handler_eq:
  "sorting_handler F req =
     (if parse_input F req = [] then Inr ''Error: No valid data to sort''
      else (case sort_data (parse_input F req) False of
              Inl e \<Rightarrow> processing_error e
            | Inr (ys, out) \<Rightarrow> Inr (str_join '' '' (map (py_str F) ys))))"
  by (auto simp: sorting_handler_def create_sorting_handler_def split: sum.splits)

text \<open>
  Why NaN is set apart: no comparison with it holds, so \<open>sorted\<close> leaves a list in an
  order that \<open>is_sorted\<close> rejects.
\<close>

lemma example_nan:
  "sort_data [VFloat FNaN, VFloat (FFinite 1)] False = Inr ([VFloat FNaN, VFloat (FFinite 1)], [])"
  "is_sorted [VFloat FNaN, VFloat (FFinite 1)] False = Inr False"
  by code_simp+

text \<open>
  The requests of the specification's examples, and the lists of \<open>test_sorting_module\<close>.
\<close>

lemma example_requests:
  "sorting_handler sample_floats ''3 1 2'' = Inr ''1 2 3''"
  "sorting_handler sample_floats ''zebra apple'' = Inr ''apple zebra''"
  "sorting_handler sample_floats ''3 1 4 1 5 9 2 6'' = Inr ''1 1 2 3 4 5 6 9''"
  by code_simp+

lemma example_lists:
  "sort_data [VInt 64, VInt 34, VInt 25, VInt 12, VInt 22, VInt 11, VInt 90] False
     = Inr ([VInt 11, VInt 12, VInt 22, VInt 25, VInt 34, VInt 64, VInt 90], [])"
  "sort_data [VText ''zebra'', VText ''apple'', VText ''banana'', VText ''cherry''] False
     = Inr ([VText ''apple'', VText ''banana'', VText ''cherry'', VText ''zebra''], [])"
  "map_sum id fst
     (sort_data [VFloat (FFinite (157 / 50)), VInt 42, VText ''apple'', VFloat (FFinite (141 / 100))] False)
     = Inr [VFloat (FFinite (157 / 50)), VInt 42, VText ''apple'', VFloat (FFinite (141 / 100))]"
  by code_simp+

text \<open>
  Claim C3.  When \<open>parse_input\<close> returns the empty list for the request text, the sorting
  handler returns exactly \<open>Error: No valid data to sort\<close>.
\<close>
theorem sorting_handler_no_data:
  "parse_input F input_data = [] \<Longrightarrow> sorting_handler F input_data = Inr ''Error: No valid data to sort''"
  by (simp add: sorting_handler_eq)

theorem sorting_handler_no_data_witness:
  "parse_input sample_floats [CHR '' '', CHR 0x09, CHR 0x0A] = []
   \<and> sorting_handler sample_floats [CHR '' '', CHR 0x09, CHR 0x0A] = Inr ''Error: No valid data to sort''
   \<and> parse_input sample_floats [] = []
   \<and> sorting_handler sample_floats [] = Inr ''Error: No valid data to sort''"
proof -
  have a: "parse_input sample_floats [CHR '' '', CHR 0x09, CHR 0x0A] = []"
    by (simp add: parse_input_def str_strip_def isspace_def)
  have b: "parse_input sample_floats [] = []"
    by (simp add: parse_input_def)
  show ?thesis
    using a b sorting_handler_no_data[OF a] sorting_handler_no_data[OF b] by simp
qed




section \<open>Properties of the connection worker\<close>

lemma worker_loop_append:
  "snd (worker_loop h a pre) = Blocked \<Longrightarrow>
   worker_loop h a (pre @ ts) = (fst (worker_loop h a pre) @ fst (worker_loop h a ts), snd (worker_loop h a ts))"
proof (induction pre)
  case Nil
  then show ?case by simp
next
  case (Cons t pre)
  from Cons.prems have b: "snd (worker_loop h a pre) = Blocked"
    by (auto simp: Let_def split: if_splits recv_outcome.splits prod.splits sum.splits send_outcome.splits)
  have ih: "worker_loop h a (pre @ ts) = (fst (worker_loop h a pre) @ fst (worker_loop h a ts), snd (worker_loop h a ts))"
    using Cons.IH[OF b] .
  from Cons.prems show ?case
    by (auto simp: Let_def ih split: if_splits recv_outcome.splits prod.splits sum.splits send_outcome.splits)
qed

lemma worker_loop_blank:
  assumes "is_running t" "recv_result t = Received raw" "\<forall>c\<in>set raw. isspace c"
  shows "worker_loop h a (t # rest) = ([], Exited)"
  using assms by (simp add: str_strip_eq_Nil_iff)

text \<open>
  Claim C4.  When the worker has served the requests before it and then receives a text
  that consists of whitespace only, its loop ends there: the events are those of the
  requests served before, followed by the closing of the socket; the handler is not
  called for the blank request and nothing further of the script is read.
\<close>
theorem blank_request_closes_connection:
  assumes "snd (worker_loop h address served) = Blocked"
      and "is_running t" and "recv_result t = Received raw"
      and "\<forall>c\<in>set raw. isspace c"
  shows "handle_client_connection h address (served @ t # rest) =
           (Print (''Connection established with '' @ address) # fst (worker_loop h address served)
              @ [SockClose, Print (''Connection with '' @ address @ '' closed'')],
            Some None)"
proof -
  have "worker_loop h address (t # rest) = ([], Exited)"
    using assms(2-4) by (rule worker_loop_blank)
  then have "worker_loop h address (served @ t # rest) = (fst (worker_loop h address served), Exited)"
    using worker_loop_append[OF assms(1), of "t # rest"] by simp
  then show ?thesis by (simp add: handle_client_connection_def)
qed

theorem blank_request_closes_connection_witness:
  "handle_client_connection (Some (sorting_handler sample_floats)) ''peer''
     ([sample_tick ''3 1 2''] @ sample_tick [CHR '' '', CHR 0x0A] # [sample_tick ''9 8''])
   = ([Print ''Connection established with peer'',
       Print ''Received from peer: 3 1 2'', HandlerCall ''3 1 2'', SockSend ''1 2 3\<newline>'',
       SockClose, Print ''Connection with peer closed''],
      Some None)"
proof -
  have w: "worker_loop (Some (sorting_handler sample_floats)) ''peer'' [sample_tick ''3 1 2'']
            = ([Print ''Received from peer: 3 1 2'', HandlerCall ''3 1 2'', SockSend ''1 2 3\<newline>''],
               Blocked)"
    by code_simp
  have s: "snd (worker_loop (Some (sorting_handler sample_floats)) ''peer'' [sample_tick ''3 1 2'']) = Blocked"
    by (simp only: w snd_conv)
  have r: "is_running (sample_tick [CHR '' '', CHR 0x0A])"
    "recv_result (sample_tick [CHR '' '', CHR 0x0A]) = Received [CHR '' '', CHR 0x0A]"
    by (simp_all add: sample_tick_def)
  have b: "\<forall>c\<in>set [CHR '' '', CHR 0x0A]. isspace c" by (simp add: isspace_def)
  show ?thesis
    using blank_request_closes_connection[OF s r b, of "[sample_tick ''9 8'']", unfolded w fst_conv]
    by simp
qed

text \<open>
  Claim C7.  With no handler installed, a request whose trimmed text is not empty is
  answered by \<open>Echo: \<close> followed by the trimmed text; the frame sent ends with one
  newline.
\<close>
theorem echo_response:
  assumes "snd (worker_loop None address served) = Blocked"
      and "is_running t" and "recv_result t = Received raw"
      and "str_strip raw \<noteq> []" and "send_result t = SendOk"
  shows "worker_loop None address (served @ [t]) =
           (fst (worker_loop None address served)
              @ [Print (''Received from '' @ address @ '': '' @ str_strip raw),
                 SockSend (''Echo: '' @ str_strip raw @ ''\<newline>'')],
            Blocked)"
proof -
  have "worker_loop None address [t] =
          ([Print (''Received from '' @ address @ '': '' @ str_strip raw),
            SockSend (''Echo: '' @ str_strip raw @ ''\<newline>'')], Blocked)"
    using assms(2-5) by (simp add: respond_def Let_def)
  then show ?thesis using worker_loop_append[OF assms(1), of "[t]"] by simp
qed

theorem echo_response_witness:
  "worker_loop None ''peer'' ([sample_tick ''hello''] @ [sample_tick ''  3 1 2 '']) =
     ([Print ''Received from peer: hello'', SockSend ''Echo: hello\<newline>'',
       Print ''Received from peer: 3 1 2'', SockSend ''Echo: 3 1 2\<newline>''],
      Blocked)"
proof -
  have w: "worker_loop None ''peer'' [sample_tick ''hello'']
            = ([Print ''Received from peer: hello'', SockSend ''Echo: hello\<newline>''], Blocked)"
    by code_simp
  have s: "snd (worker_loop None ''peer'' [sample_tick ''hello'']) = Blocked"
    by (simp only: w snd_conv)
  have r: "is_running (sample_tick ''  3 1 2 '')"
    "recv_result (sample_tick ''  3 1 2 '') = Received ''  3 1 2 ''"
    "send_result (sample_tick ''  3 1 2 '') = SendOk"
    by (simp_all add: sample_tick_def)
  have e: "str_strip ''  3 1 2 '' = ''3 1 2''" by code_simp
  have n: "str_strip ''  3 1 2 '' \<noteq> []" by (simp add: e)
  show ?thesis
    using echo_response[OF s r(1,2) n r(3), unfolded w fst_conv e] by simp
qed

lemma worker_loop_calls:
  "HandlerCall d \<in> set (fst (worker_loop h a script)) \<Longrightarrow> \<exists>raw. d = str_strip raw \<and> d \<noteq> []"
proof (induction script)
  case Nil
  then show ?case by simp
next
  case (Cons t ts)
  show ?case
  proof (cases "is_running t")
    case False
    with Cons.prems show ?thesis by simp
  next
    case True
    show ?thesis
    proof (cases "recv_result t")
      case (RecvFault e)
      with True Cons.prems show ?thesis by simp
    next
      case (Received raw)
      show ?thesis
      proof (cases "str_strip raw = []")
        case True
        with \<open>is_running t\<close> Received Cons.prems show ?thesis by simp
      next
        case False
        from Cons.prems \<open>is_running t\<close> Received False
        have "d = str_strip raw \<or> HandlerCall d \<in> set (fst (worker_loop h a ts))"
          by (auto simp: respond_def Let_def split: option.splits sum.splits send_outcome.splits prod.splits)
        then show ?thesis using False Cons.IH by blast
      qed
    qed
  qed
qed

lemma str_strip_nonblank: "str_strip raw \<noteq> [] \<Longrightarrow> \<exists>c\<in>set (str_strip raw). \<not> isspace c"
proof -
  assume ne: "str_strip raw \<noteq> []"
  let ?r = "dropWhile isspace (rev (dropWhile isspace raw))"
  have r: "?r \<noteq> []" using ne by (simp add: str_strip_def)
  then have "\<not> isspace (hd ?r)" by (rule hd_dropWhile)
  moreover have "hd ?r \<in> set ?r" using r by simp
  ultimately show ?thesis unfolding str_strip_def by (metis set_rev)
qed

text \<open>
  Claim C9.  A text with a character that is not whitespace parses to a non-empty list,
  one value for each token of \<open>split\<close>.  The worker calls the handler on trimmed,
  non-empty text only, so whenever it calls the sorting handler the parse is not empty
  and the response is the joined result of \<open>sort_data\<close>, not the error text of the
  empty case.
\<close>
theorem error_branch_unreachable_over_network:
  "((\<exists>c\<in>set s. \<not> isspace c) \<longrightarrow>
       parse_input F s \<noteq> [] \<and> parse_input F s = map (parse_item F) (str_split s))
   \<and> (HandlerCall d \<in> set (fst (handle_client_connection (Some (sorting_handler F)) address script)) \<longrightarrow>
       parse_input F d \<noteq> []
       \<and> (\<exists>ys out. sort_data (parse_input F d) False = Inr (ys, out)
            \<and> sorting_handler F d = Inr (str_join '' '' (map (py_str F) ys))))"
proof -
  have 1: "parse_input F s \<noteq> []" if "\<exists>c\<in>set s. \<not> isspace c"
    using that by (simp add: parse_input_eq_Nil_iff)
  have 2: "parse_input F s = map (parse_item F) (str_split s)" by (rule parse_input_eq)
  have 3: "parse_input F d \<noteq> []
       \<and> (\<exists>ys out. sort_data (parse_input F d) False = Inr (ys, out)
            \<and> sorting_handler F d = Inr (str_join '' '' (map (py_str F) ys)))"
    if a: "HandlerCall d \<in> set (fst (handle_client_connection (Some (sorting_handler F)) address script))"
  proof -
    obtain evs fin where w: "worker_loop (Some (sorting_handler F)) address script = (evs, fin)"
      by (cases "worker_loop (Some (sorting_handler F)) address script")
    from a have "HandlerCall d \<in> set evs"
      by (cases fin) (auto simp: handle_client_connection_def w Let_def split: if_splits)
    then have "HandlerCall d \<in> set (fst (worker_loop (Some (sorting_handler F)) address script))"
      by (simp add: w)
    then obtain raw where d: "d = str_strip raw" "d \<noteq> []" using worker_loop_calls by blast
    then have "\<exists>c\<in>set d. \<not> isspace c" using str_strip_nonblank[of raw] by simp
    then have p: "parse_input F d \<noteq> []" by (simp add: parse_input_eq_Nil_iff)
    obtain ys out where s: "sort_data (parse_input F d) False = Inr (ys, out)"
      using sort_data_total by blast
    have "sorting_handler F d = Inr (str_join '' '' (map (py_str F) ys))"
      using p s by (simp add: sorting_handler_eq)
    with p s show ?thesis by blast
  qed
  from 1 2 3 show ?thesis by blast
qed

theorem error_branch_unreachable_over_network_witness:
  "(\<exists>c\<in>set ''  zebra 1 apple ''. \<not> isspace c)
   \<and> parse_input sample_floats ''  zebra 1 apple '' = [VText ''zebra'', VInt 1, VText ''apple'']
   \<and> HandlerCall ''zebra 1 apple''
       \<in> set (fst (handle_client_connection (Some (sorting_handler sample_floats)) ''peer''
                     [sample_tick ''  zebra 1 apple '']))
   \<and> parse_input sample_floats ''zebra 1 apple'' \<noteq> []
   \<and> sorting_handler sample_floats ''zebra 1 apple'' = Inr ''zebra 1 apple''"
proof -
  have a: "\<exists>c\<in>set ''  zebra 1 apple ''. \<not> isspace c" by (simp add: isspace_def)
  have b: "HandlerCall ''zebra 1 apple''
       \<in> set (fst (handle_client_connection (Some (sorting_handler sample_floats)) ''peer''
                     [sample_tick ''  zebra 1 apple '']))"
    by code_simp
  have c: "map (parse_item sample_floats) (str_split ''  zebra 1 apple '')
            = [VText ''zebra'', VInt 1, VText ''apple'']" by code_simp
  have e: "sorting_handler sample_floats ''zebra 1 apple'' = Inr ''zebra 1 apple''" by code_simp
  show ?thesis
    using error_branch_unreachable_over_network
            [of "''  zebra 1 apple ''" sample_floats "''zebra 1 apple''" "''peer''"
                "[sample_tick ''  zebra 1 apple '']"]
          a b c e
    by simp
qed

section \<open>Properties of the client\<close>

lemma digit_char_numerals:
  "digit_char 0 = CHR ''0''" "digit_char 1 = CHR ''1''" "digit_char 2 = CHR ''2''"
  "digit_char 3 = CHR ''3''" "digit_char 4 = CHR ''4''" "digit_char 5 = CHR ''5''"
  "digit_char 6 = CHR ''6''" "digit_char 7 = CHR ''7''" "digit_char 8 = CHR ''8''"
  "digit_char 9 = CHR ''9''"
  by code_simp+

lemma str_int_8080: "str_int 8080 = ''8080''"
  by (simp add: str_int_def digits_of.simps digit_char_numerals)

lemma send_data_closes_iff:
  "OpClose \<in> set (snd (send_data c data timeout x))
     \<longleftrightarrow> settimeout timeout = None \<and> (\<exists>raw. x = Reply raw)"
  by (cases x; cases "settimeout timeout") (auto simp: send_data_def Let_def)

lemma send_data_opens_iff:
  "OpSocket \<in> set (snd (send_data c data timeout x)) \<longleftrightarrow> (\<forall>e. x \<noteq> SocketRaises e)"
  by (cases x; cases "settimeout timeout") (auto simp: send_data_def Let_def)

lemma settimeout_accepts_iff: "settimeout t = None \<longleftrightarrow> 0 \<le> t \<and> t \<le> timeout_max"
  by (auto simp: settimeout_def timeout_max_def)

lemma settimeout_5: "settimeout 5 = None"
  by (simp add: settimeout_def timeout_max_def)

lemma send_data_refused:
  "settimeout timeout = None \<Longrightarrow>
   send_data c data timeout refused_exchange =
     (Inr (''Error: '' @ ''Cannot connect'' @ '' to server at '' @ host c @ '':'' @ str_int (port c)),
      [OpSocket, OpSetTimeout timeout, OpConnect (host c) (port c)])"
  by (simp add: send_data_def refused_exchange_def send_data_except_def)

text \<open>
  Claim C5.  The call that the module's own test makes against a port with no listener:
  \<open>connect\<close> raises \<open>ConnectionRefusedError\<close>, \<open>send_data\<close> returns the error text, and
  the socket it created has not been closed when it returns.  \<open>close\<close> is called on the
  path of a reply only (\<open>send_data_closes_iff\<close>).
\<close>
theorem send_data_refused_socket_left_open:
  "send_data sample_client ''test data'' 5 refused_exchange =
     (Inr ''Error: Cannot connect to server at localhost:8080'',
      [OpSocket, OpSetTimeout 5, OpConnect ''localhost'' 8080])
   \<and> OpSocket \<in> set (snd (send_data sample_client ''test data'' 5 refused_exchange))
   \<and> OpClose \<notin> set (snd (send_data sample_client ''test data'' 5 refused_exchange))"
proof -
  have "send_data sample_client ''test data'' 5 refused_exchange =
     (Inr ''Error: Cannot connect to server at localhost:8080'',
      [OpSocket, OpSetTimeout 5, OpConnect ''localhost'' 8080])"
    by (simp add: send_data_refused[OF settimeout_5] sample_client_def str_int_8080)
  then show ?thesis by simp
qed




end
